theory Spec2Isabelle
  imports Complex_Main
begin

section \<open>Data model\<close>

text \<open>
  The crawler of \<^verbatim>\<open>src/pypi_crawler.py\<close> (class \<^verbatim>\<open>GitHubActionsPyPICrawler\<close>).

  The index's JSON is modelled by records. A value that the code reads by key may be
  missing, JSON \<^verbatim>\<open>null\<close>, or present: the keys \<^verbatim>\<open>info\<close>, \<^verbatim>\<open>version\<close>, \<^verbatim>\<open>releases\<close>
  and \<^verbatim>\<open>upload_time_iso_8601\<close>, which the filter reads inside a handler that names
  \<^verbatim>\<open>KeyError\<close>, \<^verbatim>\<open>ValueError\<close> and \<^verbatim>\<open>IndexError\<close> only, and the keys \<^verbatim>\<open>summary\<close>,
  \<^verbatim>\<open>author\<close>, \<^verbatim>\<open>license\<close> and \<^verbatim>\<open>home_page\<close>, which the sidecar file copies. The key
  \<^verbatim>\<open>size\<close> is read through \<^verbatim>\<open>.get('size', 0)\<close>: it is an integer or missing. The
  keys \<^verbatim>\<open>filename\<close> and \<^verbatim>\<open>url\<close> of a release file are plain fields. A present value
  has the type the index documents (a string, an object, a list of objects). For
  \<^verbatim>\<open>info\<close> and for \<^verbatim>\<open>upload_time_iso_8601\<close> every JSON value of another type makes the
  code fail as \<^verbatim>\<open>null\<close> does (no such value can be subscripted by a key, none has
  \<^verbatim>\<open>replace\<close>), and \<open>Null\<close> stands for all of them. Elsewhere values of another JSON
  type, \<^verbatim>\<open>null\<close> apart, are outside the model.
\<close>

datatype 'a entry = Missing | Null | Present 'a

record release_file =
  filename :: string
  url :: string
  size_bytes :: "int option"
  upload_time_iso_8601 :: "string entry"

record info_dict =
  version :: "string entry"
  summary :: "string entry"
  author :: "string entry"
  license :: "string entry"
  home_page :: "string entry"

record package_info =
  info :: "info_dict entry"
  releases :: "(string \<rightharpoonup> release_file list) entry"

datatype py_error =
  KeyError | ValueError | IndexError | TypeError | AttributeError | OverflowError | OSError
  | RequestException

text \<open>
  A \<^verbatim>\<open>datetime\<close> value: the calendar fields and \<^verbatim>\<open>tzinfo\<close>, \<open>None\<close> for a naive value,
  otherwise the offset from UTC in microseconds.
\<close>

record datetime =
  year :: nat
  month :: nat
  day :: nat
  hour :: nat
  minute :: nat
  second :: nat
  microsecond :: nat
  tzinfo :: "int option"

text \<open>What a feed request gives: an error (transport, status or XML), or the text of
  the title of every \<^verbatim>\<open>item\<close>, \<open>None\<close> where the item has no title or the title no text.\<close>

datatype feed_response = FeedError | Feed "string option list"

text \<open>
  The environment. Every answer of the network and of the file system may depend on the
  moment of the request, which is the number of effects performed so far.
  \<open>fromisoformat\<close> is \<^verbatim>\<open>datetime.fromisoformat\<close> of the Python library, \<open>None\<close> for
  \<^verbatim>\<open>ValueError\<close>. \<open>writable\<close> tells whether \<^verbatim>\<open>open\<close> for writing succeeds on a file
  of the download directory; the write to an open file is taken to succeed.
\<close>

record world =
  fromisoformat :: "string \<Rightarrow> datetime option"
  json_api :: "nat \<Rightarrow> string \<Rightarrow> package_info option"
  artifact :: "nat \<Rightarrow> string \<Rightarrow> string option"
  rss :: "nat \<Rightarrow> string \<Rightarrow> feed_response"
  writable :: "nat \<Rightarrow> string \<Rightarrow> bool"

text \<open>The effects of a run, in order: a GET of a URL, the write of a file of the
  download directory, a \<^verbatim>\<open>time.sleep\<close>.\<close>

datatype event = Get string | Write string | Sleep rat

record report =
  total_packages_downloaded :: nat
  total_size_mb :: rat
  packages :: "string list"

text \<open>
  The state: the attributes of the object, the names of the files of the download
  directory (their contents are not modelled), the effects so far, and the content of
  \<^verbatim>\<open>download_report.json\<close> once written.

  \<^verbatim>\<open>current_total_size\<close> is a Python float. Every value it takes is a sum of quotients
  that \<open>get_file_size_mb\<close> returned; the model keeps the sum of line 96 and of line 116
  exact (the code computes the same float sum at both lines).
\<close>

record crawler =
  max_packages :: int
  max_size_mb :: rat
  max_total_size_mb :: rat
  current_total_size :: rat
  files :: "string set"
  trace :: "event list"
  written_report :: "report option"

text \<open>\<^verbatim>\<open>__init__\<close>, for a download directory that holds the files \<open>existing\<close>
  (\<^verbatim>\<open>os.makedirs(download_dir, exist_ok=True)\<close> keeps them).\<close>

definition init :: "string set \<Rightarrow> int \<Rightarrow> rat \<Rightarrow> crawler" where
  "init existing mp ms =
     \<lparr>max_packages = mp, max_size_mb = ms, max_total_size_mb = 500,
      current_total_size = 0, files = existing, trace = [], written_report = None\<rparr>"

definition emit :: "event \<Rightarrow> crawler \<Rightarrow> crawler" where
  "emit e s = s\<lparr>trace := trace s @ [e]\<rparr>"

definition now :: "crawler \<Rightarrow> nat" where
  "now s = length (trace s)"

text \<open>\<^verbatim>\<open>with open(path, 'w') as f: ...\<close> on the file \<open>n\<close> of the download directory:
  \<^verbatim>\<open>OSError\<close>, with nothing written, when \<^verbatim>\<open>open\<close> fails.\<close>

definition write_file :: "world \<Rightarrow> string \<Rightarrow> crawler \<Rightarrow> py_error + crawler" where
  "write_file W n s =
     (if writable W (now s) n then Inr (emit (Write n) (s\<lparr>files := insert n (files s)\<rparr>))
      else Inl OSError)"

section \<open>Metadata fetcher\<close>

definition json_url :: "string \<Rightarrow> string" where
  "json_url package_name = ''https://pypi.org/pypi/'' @ package_name @ ''/json''"

definition get_package_info :: "world \<Rightarrow> crawler \<Rightarrow> string \<Rightarrow> package_info option \<times> crawler" where
  "get_package_info W s package_name =
     (let u = json_url package_name
      in (json_api W (now s) u, emit (Get u) s))"

section \<open>Artifact selection and download\<close>

definition endswith :: "string \<Rightarrow> string \<Rightarrow> bool" where
  "endswith s suf = (length suf \<le> length s \<and> drop (length s - length suf) s = suf)"

text \<open>\<^verbatim>\<open>int.bit_length\<close>, on a natural number.\<close>

fun bit_length :: "nat \<Rightarrow> nat" where
  "bit_length n = (if n = 0 then 0 else Suc (bit_length (n div 2)))"

declare bit_length.simps [simp del]

text \<open>
  \<^verbatim>\<open>size_bytes / (1024 * 1024)\<close> for an integer \<open>n\<close>: Python's true division gives the
  double nearest to the quotient, a tie going to the even significand, and raises
  \<^verbatim>\<open>OverflowError\<close> when that is beyond the range of a double (\<open>2 ^ 1024\<close> or more in
  magnitude). The divisor is \<open>2 ^ 20\<close>: the quotient of an \<open>n\<close> below \<open>2 ^ 53\<close> in
  magnitude is a double itself; a larger \<open>n\<close> is rounded to 53 significant bits. The
  double is given as the rational number it is.
\<close>

definition true_divide_mb :: "int \<Rightarrow> py_error + rat" where
  "true_divide_mb n =
     (let a = nat \<bar>n\<bar> in
      if a < 9007199254740992 then Inr (of_int n / (1024 * 1024))
      else
        (let k = bit_length a - 53;
             q = a div 2 ^ k;
             r = a mod 2 ^ k;
             m = (if 2 * r < 2 ^ k then q else if 2 ^ k < 2 * r then q + 1
                  else if even q then q else q + 1)
         in if 2 ^ 1044 \<le> m * 2 ^ k then Inl OverflowError
            else Inr (of_int (sgn n * int (m * 2 ^ k)) / (1024 * 1024))))"

definition get_file_size_mb :: "release_file \<Rightarrow> py_error + rat" where
  "get_file_size_mb file_info =
     (let size_bytes = (case size_bytes file_info of None \<Rightarrow> 0 | Some n \<Rightarrow> n)
      in true_divide_mb size_bytes)"

text \<open>One scan of \<^verbatim>\<open>download_package\<close> (lines 76-81 with the suffix \<^verbatim>\<open>.tar.gz\<close>, lines
  85-90 with \<^verbatim>\<open>.whl\<close>): the first file with the suffix whose size in megabytes is within
  the cap. An error of \<open>get_file_size_mb\<close> ends the scan.\<close>

fun scan :: "string \<Rightarrow> rat \<Rightarrow> release_file list \<Rightarrow> py_error + release_file option" where
  "scan suf cap [] = Inr None"
| "scan suf cap (file_info # rest) =
     (if endswith (filename file_info) suf then
        (case get_file_size_mb file_info of
           Inl e \<Rightarrow> Inl e
         | Inr file_size_mb \<Rightarrow>
             if file_size_mb \<le> cap then Inr (Some file_info) else scan suf cap rest)
      else scan suf cap rest)"

definition suitable_file :: "rat \<Rightarrow> release_file list \<Rightarrow> py_error + release_file option" where
  "suitable_file cap rel =
     (case scan ''.tar.gz'' cap rel of
        Inl e \<Rightarrow> Inl e
      | Inr (Some f) \<Rightarrow> Inr (Some f)
      | Inr None \<Rightarrow> scan ''.whl'' cap rel)"

text \<open>Lines 71-72: \<^verbatim>\<open>package_info['releases'][package_info['info']['version']]\<close>.
  Subscripting \<^verbatim>\<open>None\<close> raises \<^verbatim>\<open>TypeError\<close>; \<^verbatim>\<open>None\<close> is not a key of the releases.\<close>

definition latest_release_files :: "package_info \<Rightarrow> py_error + release_file list" where
  "latest_release_files package_info =
     (case info package_info of
        Missing \<Rightarrow> Inl KeyError
      | Null \<Rightarrow> Inl TypeError
      | Present i \<Rightarrow>
        (case version i of
           Missing \<Rightarrow> Inl KeyError
         | latest_version \<Rightarrow>
           (case releases package_info of
              Missing \<Rightarrow> Inl KeyError
            | Null \<Rightarrow> Inl TypeError
            | Present rel \<Rightarrow>
              (case latest_version of
                 Present v \<Rightarrow> (case rel v of None \<Rightarrow> Inl KeyError | Some fs \<Rightarrow> Inr fs)
               | _ \<Rightarrow> Inl KeyError))))"

text \<open>The sidecar \<^verbatim>\<open><name>_metadata.json\<close> (lines 131-147). Building its dictionary
  reads five keys of \<^verbatim>\<open>package_info['info']\<close>, whose values may be \<^verbatim>\<open>null\<close>; then the
  file is written. What is written is not modelled.\<close>

definition save_package_metadata ::
  "world \<Rightarrow> crawler \<Rightarrow> string \<Rightarrow> package_info \<Rightarrow> string \<Rightarrow> py_error + crawler" where
  "save_package_metadata W s package_name package_info fname =
     (case info package_info of
        Missing \<Rightarrow> Inl KeyError
      | Null \<Rightarrow> Inl TypeError
      | Present i \<Rightarrow>
          if version i = Missing \<or> summary i = Missing \<or> author i = Missing
             \<or> license i = Missing \<or> home_page i = Missing
          then Inl KeyError
          else write_file W (package_name @ ''_metadata.json'') s)"

text \<open>Line 96, the aggregate check.\<close>

definition over_total :: "crawler \<Rightarrow> rat \<Rightarrow> bool" where
  "over_total s file_size_mb = (current_total_size s + file_size_mb > max_total_size_mb s)"

text \<open>Every error inside \<^verbatim>\<open>download_package\<close> is caught at line 127 and gives
  \<open>False\<close>; what was done before the error stays done.\<close>

definition download_package :: "world \<Rightarrow> crawler \<Rightarrow> string \<Rightarrow> package_info \<Rightarrow> bool \<times> crawler" where
  "download_package W s package_name package_info =
     (case latest_release_files package_info of
        Inl e \<Rightarrow> (False, s)
      | Inr rel \<Rightarrow>
        (case suitable_file (max_size_mb s) rel of
           Inl e \<Rightarrow> (False, s)
         | Inr None \<Rightarrow> (False, s)
         | Inr (Some f) \<Rightarrow>
           (case get_file_size_mb f of
              Inl e \<Rightarrow> (False, s)
            | Inr file_size_mb \<Rightarrow>
                if over_total s file_size_mb then (False, s)
                else if filename f \<in> files s then (True, s)
                else
                  (let s1 = emit (Get (url f)) s in
                   case artifact W (now s) (url f) of
                     None \<Rightarrow> (False, s1)
                   | Some content \<Rightarrow>
                     (case write_file W (filename f) s1 of
                        Inl e \<Rightarrow> (False, s1)
                      | Inr s2 \<Rightarrow>
                        (let s3 = s2\<lparr>current_total_size := current_total_size s2 + file_size_mb\<rparr>
                         in case save_package_metadata W s3 package_name package_info (filename f) of
                              Inl e \<Rightarrow> (False, s3)
                            | Inr s4 \<Rightarrow> (True, s4)))))))"

section \<open>Eligibility filter\<close>

definition replace_Z :: "string \<Rightarrow> string" where
  "replace_Z t = concat (map (\<lambda>c. if c = CHR ''Z'' then ''+00:00'' else [c]) t)"

text \<open>Python compares two \<^verbatim>\<open>datetime\<close> values of one and the same \<^verbatim>\<open>tzinfo\<close> (or two
  naive ones) by their calendar fields, as tuples; \<^verbatim>\<open>tzinfo\<close> is ignored. The filter
  only compares such values.\<close>

fun tuple_ge :: "nat list \<Rightarrow> nat list \<Rightarrow> bool" where
  "tuple_ge (a # as) (b # bs) = (if a = b then tuple_ge as bs else b < a)"
| "tuple_ge [] (b # bs) = False"
| "tuple_ge as [] = True"

definition calendar :: "datetime \<Rightarrow> nat list" where
  "calendar d = [year d, month d, day d, hour d, minute d, second d, microsecond d]"

definition datetime_ge :: "datetime \<Rightarrow> datetime \<Rightarrow> bool" where
  "datetime_ge a b = tuple_ge (calendar a) (calendar b)"

text \<open>\<^verbatim>\<open>datetime(2025, 7, 1, tzinfo=tz)\<close>.\<close>

definition cutoff_date :: "int option \<Rightarrow> datetime" where
  "cutoff_date tz =
     \<lparr>year = 2025, month = 7, day = 1, hour = 0, minute = 0, second = 0, microsecond = 0,
      tzinfo = tz\<rparr>"

text \<open>
  Lines 44-61. \<open>Inr\<close> is the value returned: \<open>False\<close> also where the handler catches
  \<^verbatim>\<open>KeyError\<close> (a missing key), \<^verbatim>\<open>ValueError\<close> (a string that does not parse) or
  \<^verbatim>\<open>IndexError\<close>. \<open>Inl\<close> is an error that the handler does not name and that leaves
  the method: \<^verbatim>\<open>TypeError\<close> for \<^verbatim>\<open>None['version']\<close> and for \<^verbatim>\<open>latest_version in None\<close>,
  \<^verbatim>\<open>AttributeError\<close> for \<^verbatim>\<open>None.replace\<close>. A \<^verbatim>\<open>null\<close> version is not a key of the
  releases.
\<close>

definition is_updated_since_july_2025 :: "world \<Rightarrow> package_info \<Rightarrow> py_error + bool" where
  "is_updated_since_july_2025 W package_info =
     (case info package_info of
        Missing \<Rightarrow> Inr False
      | Null \<Rightarrow> Inl TypeError
      | Present i \<Rightarrow>
        (case version i of
           Missing \<Rightarrow> Inr False
         | latest_version \<Rightarrow>
           (case releases package_info of
              Missing \<Rightarrow> Inr False
            | Null \<Rightarrow> Inl TypeError
            | Present rel \<Rightarrow>
              (case latest_version of
                 Present v \<Rightarrow>
                   (case rel v of
                      None \<Rightarrow> Inr False
                    | Some release_files \<Rightarrow>
                      (case release_files of
                         [] \<Rightarrow> Inr False
                       | first_file # rest \<Rightarrow>
                         (case upload_time_iso_8601 first_file of
                            Missing \<Rightarrow> Inr False
                          | Null \<Rightarrow> Inl AttributeError
                          | Present upload_time \<Rightarrow>
                            (case fromisoformat W (replace_Z upload_time) of
                               None \<Rightarrow> Inr False
                             | Some upload_date \<Rightarrow>
                                 Inr (datetime_ge upload_date (cutoff_date (tzinfo upload_date)))))))
               | _ \<Rightarrow> Inr False))))"

section \<open>Candidate source resolver\<close>

definition get_popular_packages_fallback :: "string list" where
  "get_popular_packages_fallback =
     [''requests'', ''urllib3'', ''certifi'', ''charset-normalizer'',
      ''pip'', ''setuptools'', ''wheel'', ''packaging'',
      ''numpy'', ''pandas'', ''matplotlib'', ''scipy'',
      ''flask'', ''django'', ''fastapi'', ''starlette'',
      ''boto3'', ''botocore'', ''aws-cdk-lib'', ''aws-cli'',
      ''tensorflow'', ''torch'', ''transformers'', ''openai'',
      ''pydantic'', ''sqlalchemy'', ''alembic'', ''click'',
      ''pytest'', ''black'', ''flake8'', ''mypy'',
      ''jupyter'', ''notebook'', ''ipython'', ''ipykernel'']"

text \<open>\<^verbatim>\<open>xs[:n]\<close> for a Python integer \<open>n\<close>: a negative \<open>n\<close> counts from the end.\<close>

definition slice_to :: "int \<Rightarrow> 'a list \<Rightarrow> 'a list" where
  "slice_to n xs = (if 0 \<le> n then take (nat n) xs else take (nat (int (length xs) + n)) xs)"

text \<open>The characters on which \<^verbatim>\<open>str.split()\<close> splits, among the code points below 256
  that a character of the model stands for.\<close>

definition is_space :: "char \<Rightarrow> bool" where
  "is_space c =
     (let k = (of_char c :: nat)
      in (9 \<le> k \<and> k \<le> 13) \<or> (28 \<le> k \<and> k \<le> 32) \<or> k = 133 \<or> k = 160)"

text \<open>\<^verbatim>\<open>title.text.split()[0]\<close>; \<^verbatim>\<open>IndexError\<close> when the text has no token.\<close>

definition first_token :: "string \<Rightarrow> py_error + string" where
  "first_token t =
     (let r = dropWhile is_space t
      in if r = [] then Inl IndexError else Inr (takeWhile (\<lambda>c. \<not> is_space c) r))"

text \<open>The loop over the items (lines 187-193). \<^verbatim>\<open>packages\<close> is a list that the loop
  appends to: what it holds when an item raises stays in it.\<close>

fun collect :: "string list \<Rightarrow> string option list \<Rightarrow> py_error option \<times> string list" where
  "collect pkgs [] = (None, pkgs)"
| "collect pkgs (title # rest) =
     (case title of
        None \<Rightarrow> collect pkgs rest
      | Some t \<Rightarrow>
        if t = [] then collect pkgs rest
        else
          (case first_token t of
             Inl e \<Rightarrow> (Some e, pkgs)
           | Inr package_name \<Rightarrow>
             if package_name \<noteq> [] \<and> package_name \<notin> set pkgs
             then collect (pkgs @ [package_name]) rest
             else collect pkgs rest))"

definition rss_urls :: "string list" where
  "rss_urls = [''https://pypi.org/rss/updates.xml'', ''https://pypi.org/rss/packages.xml'']"

text \<open>The loop over the feeds (lines 177-201), then the fallback (line 205).
  \<^verbatim>\<open>packages\<close> is created once, before the loop.\<close>

fun rss_loop :: "world \<Rightarrow> crawler \<Rightarrow> string list \<Rightarrow> string list \<Rightarrow> string list \<times> crawler" where
  "rss_loop W s pkgs [] = (slice_to (max_packages s) get_popular_packages_fallback, s)"
| "rss_loop W s pkgs (rss_url # rest) =
     (let s1 = emit (Get rss_url) s in
      case rss W (now s) rss_url of
        FeedError \<Rightarrow> rss_loop W s1 pkgs rest
      | Feed items \<Rightarrow>
        (case collect pkgs items of
           (Some e, pkgs') \<Rightarrow> rss_loop W s1 pkgs' rest
         | (None, pkgs') \<Rightarrow>
           if pkgs' \<noteq> [] then (slice_to (max_packages s) pkgs', s1)
           else rss_loop W s1 pkgs' rest))"

definition get_recent_packages_from_rss :: "world \<Rightarrow> crawler \<Rightarrow> string list \<times> crawler" where
  "get_recent_packages_from_rss W s = rss_loop W s [] rss_urls"

section \<open>Report and pipeline driver\<close>

text \<open>\<^verbatim>\<open>round(x, 2)\<close> on an exact value: to the nearest hundredth, a tie to the even one.\<close>

definition py_round2 :: "rat \<Rightarrow> rat" where
  "py_round2 x =
     (let y = x * 100; f = \<lfloor>y\<rfloor>; d = y - of_int f
      in of_int (if d < 1 / 2 then f else if 1 / 2 < d then f + 1
                 else if even f then f else f + 1) / 100)"

text \<open>Lines 237-265: the report, then the summary. Nothing catches an error of the two
  writes: it leaves the method, with what was written before.\<close>

definition create_summary_report ::
  "world \<Rightarrow> crawler \<Rightarrow> string list \<Rightarrow> py_error option \<times> crawler" where
  "create_summary_report W s downloaded_packages =
     (let rep = \<lparr>total_packages_downloaded = length downloaded_packages,
                 total_size_mb = py_round2 (current_total_size s),
                 packages = downloaded_packages\<rparr>
      in case write_file W ''download_report.json'' s of
           Inl e \<Rightarrow> (Some e, s)
         | Inr s1 \<Rightarrow>
           (let s2 = s1\<lparr>written_report := Some rep\<rparr>
            in case write_file W ''README.md'' s2 of
                 Inl e \<Rightarrow> (Some e, s2)
               | Inr s3 \<Rightarrow> (None, s3)))"

text \<open>The publishing step runs \<^verbatim>\<open>git\<close> on the directory and catches every error: it
  changes nothing of the state modelled here.\<close>

definition git_commit_and_push :: "crawler \<Rightarrow> crawler" where
  "git_commit_and_push s = s"

text \<open>The candidate loop (lines 281-305) with its two accumulators. An error that the
  filter does not catch leaves the loop and the method: the result is \<open>Inl\<close>.\<close>

fun crawl_loop ::
  "world \<Rightarrow> crawler \<Rightarrow> string list \<Rightarrow> int \<Rightarrow> string list \<Rightarrow>
     (py_error + string list \<times> int) \<times> crawler" where
  "crawl_loop W s downloaded_packages downloaded_count [] =
     (Inr (downloaded_packages, downloaded_count), s)"
| "crawl_loop W s downloaded_packages downloaded_count (package_name # rest) =
     (if downloaded_count \<ge> max_packages s
      then (Inr (downloaded_packages, downloaded_count), s)
      else
        (case get_package_info W s package_name of
           (None, s1) \<Rightarrow> crawl_loop W s1 downloaded_packages downloaded_count rest
         | (Some package_info, s1) \<Rightarrow>
           (case is_updated_since_july_2025 W package_info of
              Inl e \<Rightarrow> (Inl e, s1)
            | Inr eligible \<Rightarrow>
                if \<not> eligible
                then crawl_loop W s1 downloaded_packages downloaded_count rest
                else
                  (case download_package W s1 package_name package_info of
                     (True, s2) \<Rightarrow>
                       crawl_loop W (emit (Sleep (1 / 2)) s2)
                         (downloaded_packages @ [package_name]) (downloaded_count + 1) rest
                   | (False, s2) \<Rightarrow>
                       crawl_loop W (emit (Sleep (1 / 2)) s2)
                         downloaded_packages downloaded_count rest))))"

text \<open>Lines 267-315. \<open>Inr None\<close> is the bare \<^verbatim>\<open>return\<close> of line 275, \<open>Inr (Some l)\<close>
  the list returned at line 315, \<open>Inl\<close> an error that leaves the method.\<close>

definition crawl_and_download ::
  "world \<Rightarrow> crawler \<Rightarrow> string list option \<Rightarrow> (py_error + string list option) \<times> crawler" where
  "crawl_and_download W s package_list =
     (case (case package_list of
              None \<Rightarrow> get_recent_packages_from_rss W s
            | Some l \<Rightarrow> (l, s)) of
        (l, s0) \<Rightarrow>
          if l = [] then (Inr None, s0)
          else
            (case crawl_loop W s0 [] 0 l of
               (Inl e, s1) \<Rightarrow> (Inl e, s1)
             | (Inr (downloaded_packages, downloaded_count), s1) \<Rightarrow>
                 (case create_summary_report W s1 downloaded_packages of
                    (Some e, s2) \<Rightarrow> (Inl e, s2)
                  | (None, s2) \<Rightarrow> (Inr (Some downloaded_packages), git_commit_and_push s2))))"

section \<open>The states of a session\<close>

text \<open>The states a crawler gets to from its construction through its methods, called in
  any order and with any arguments, in a world \<open>W\<close>.\<close>

inductive reachable :: "world \<Rightarrow> crawler \<Rightarrow> bool" for W :: world where
  created: "reachable W (init existing mp ms)"
| after_get_package_info:
    "reachable W s \<Longrightarrow> reachable W (snd (get_package_info W s n))"
| after_download_package:
    "reachable W s \<Longrightarrow> reachable W (snd (download_package W s n p))"
| after_save_package_metadata:
    "reachable W s \<Longrightarrow> save_package_metadata W s n p f = Inr s' \<Longrightarrow> reachable W s'"
| after_get_recent_packages_from_rss:
    "reachable W s \<Longrightarrow> reachable W (snd (get_recent_packages_from_rss W s))"
| after_sleep:
    "reachable W s \<Longrightarrow> reachable W (emit (Sleep (1 / 2)) s)"
| after_create_summary_report:
    "reachable W s \<Longrightarrow> reachable W (snd (create_summary_report W s dp))"
| after_git_commit_and_push:
    "reachable W s \<Longrightarrow> reachable W (git_commit_and_push s)"
| after_crawl_and_download:
    "reachable W s \<Longrightarrow> reachable W (snd (crawl_and_download W s pl))"

definition within_budget :: "crawler \<Rightarrow> bool" where
  "within_budget s =
     (current_total_size s \<le> max_total_size_mb s \<and> max_total_size_mb s = 500 \<and>
      (case written_report s of None \<Rightarrow> True | Some rep \<Rightarrow> total_size_mb rep \<le> 500))"

text \<open>How a state relates to an earlier one: the caps are the same, no file and no
  effect is lost, and every new file was written.\<close>

definition evolves :: "crawler \<Rightarrow> crawler \<Rightarrow> bool" where
  "evolves s s' =
     (max_packages s' = max_packages s \<and> max_size_mb s' = max_size_mb s \<and>
      files s \<subseteq> files s' \<and> set (trace s) \<subseteq> set (trace s') \<and>
      files s' \<subseteq> files s \<union> {n. Write n \<in> set (trace s')})"


section \<open>Declared sizes\<close>



section \<open>Instants\<close>

text \<open>
  The specification compares instants. The instant of a \<^verbatim>\<open>datetime\<close> with a UTC offset
  is counted here in microseconds since 0001-01-01T00:00:00 UTC, with the day number of
  Python's \<^verbatim>\<open>toordinal\<close>. These definitions state the specification's notion; the
  filter itself never computes an instant.
\<close>

definition is_leap :: "nat \<Rightarrow> bool" where
  "is_leap y = (y mod 4 = 0 \<and> (y mod 100 \<noteq> 0 \<or> y mod 400 = 0))"

definition days_in_month :: "nat \<Rightarrow> nat \<Rightarrow> nat" where
  "days_in_month y m =
     (if m = 2 then (if is_leap y then 29 else 28)
      else if m = 4 \<or> m = 6 \<or> m = 9 \<or> m = 11 then 30 else 31)"








section \<open>Concrete inputs\<close>

text \<open>
  A parser to run the examples with. On a timestamp of the layout
  \<^verbatim>\<open>YYYY-MM-DD?HH:MM:SS[.ffffff][+HH:MM]\<close> with every field in range it gives the value
  \<^verbatim>\<open>datetime.fromisoformat\<close> gives; it rejects every other string, some of which
  Python accepts. The theorems below hold for every parser.
\<close>

definition digit_val :: "char \<Rightarrow> nat option" where
  "digit_val c =
     (let k = (of_char c :: nat) in if 48 \<le> k \<and> k \<le> 57 then Some (k - 48) else None)"

fun number_from :: "nat \<Rightarrow> string \<Rightarrow> nat option" where
  "number_from a [] = Some a"
| "number_from a (c # cs) =
     (case digit_val c of None \<Rightarrow> None | Some d \<Rightarrow> number_from (10 * a + d) cs)"

definition field :: "nat \<Rightarrow> nat \<Rightarrow> string \<Rightarrow> nat option" where
  "field pos len t =
     (if length t < pos + len then None else number_from 0 (take len (drop pos t)))"

definition parse_offset :: "string \<Rightarrow> int option option" where
  "parse_offset t =
     (if t = [] then Some None
      else if length t = 6 \<and> (t ! 0 = CHR ''+'' \<or> t ! 0 = CHR ''-'') \<and> t ! 3 = CHR '':'' then
        (case field 1 2 t of
           None \<Rightarrow> None
         | Some h \<Rightarrow>
           (case field 4 2 t of
              None \<Rightarrow> None
            | Some m \<Rightarrow>
                if h \<le> 23 \<and> m \<le> 59
                then Some (Some ((if t ! 0 = CHR ''-'' then - 1 else 1) *
                                 (int h * 3600 + int m * 60) * 1000000))
                else None))
      else None)"

definition parse_fraction :: "string \<Rightarrow> (nat \<times> string) option" where
  "parse_fraction t =
     (if t \<noteq> [] \<and> t ! 0 = CHR ''.'' then
        (case field 1 6 t of None \<Rightarrow> None | Some us \<Rightarrow> Some (us, drop 7 t))
      else Some (0, t))"

definition fromisoformat_fixed :: "string \<Rightarrow> datetime option" where
  "fromisoformat_fixed t =
     (if length t < 19 \<or> t ! 4 \<noteq> CHR ''-'' \<or> t ! 7 \<noteq> CHR ''-'' \<or> t ! 13 \<noteq> CHR '':''
         \<or> t ! 16 \<noteq> CHR '':'' then None
      else
        (case (field 0 4 t, field 5 2 t, field 8 2 t, field 11 2 t, field 14 2 t, field 17 2 t) of
           (Some y, Some mo, Some d, Some h, Some mi, Some sec) \<Rightarrow>
             if 1 \<le> y \<and> 1 \<le> mo \<and> mo \<le> 12 \<and> 1 \<le> d \<and> d \<le> days_in_month y mo
                \<and> h \<le> 23 \<and> mi \<le> 59 \<and> sec \<le> 59 then
               (case parse_fraction (drop 19 t) of
                  None \<Rightarrow> None
                | Some (us, tail) \<Rightarrow>
                  (case parse_offset tail of
                     None \<Rightarrow> None
                   | Some tz \<Rightarrow>
                       Some \<lparr>year = y, month = mo, day = d, hour = h, minute = mi,
                             second = sec, microsecond = us, tzinfo = tz\<rparr>))
             else None
         | _ \<Rightarrow> None))"

text \<open>A package whose latest version \<open>v\<close> has the one source distribution
  \<^verbatim>\<open><name>-<v>.tar.gz\<close> of \<open>n\<close> bytes, uploaded at \<open>t\<close>.\<close>

definition sdist :: "string \<Rightarrow> string \<Rightarrow> int option \<Rightarrow> string \<Rightarrow> release_file" where
  "sdist name v n t =
     \<lparr>filename = name @ ''-'' @ v @ ''.tar.gz'',
      url = ''https://files.pythonhosted.org/'' @ name @ ''-'' @ v @ ''.tar.gz'',
      size_bytes = n, upload_time_iso_8601 = Present t\<rparr>"

definition wheel :: "string \<Rightarrow> string \<Rightarrow> int option \<Rightarrow> string \<Rightarrow> release_file" where
  "wheel name v n t =
     \<lparr>filename = name @ ''-'' @ v @ ''-py3-none-any.whl'',
      url = ''https://files.pythonhosted.org/'' @ name @ ''-'' @ v @ ''-py3-none-any.whl'',
      size_bytes = n, upload_time_iso_8601 = Present t\<rparr>"

text \<open>A descriptor whose latest version \<open>v\<close> has the files \<open>fs\<close>; of the other keys
  of \<^verbatim>\<open>info\<close> the summary is a string and the rest are \<^verbatim>\<open>null\<close>.\<close>

definition package :: "string \<Rightarrow> release_file list \<Rightarrow> package_info" where
  "package v fs =
     \<lparr>info = Present \<lparr>version = Present v, summary = Present ''An example'', author = Null,
                       license = Null, home_page = Null\<rparr>,
      releases = Present [v \<mapsto> fs]\<rparr>"

text \<open>A world whose index holds the packages of a table, whose artifact downloads all
  succeed or all fail, whose feeds answer as given, and whose download directory takes
  every write, at every moment.\<close>

definition static_world ::
  "(string \<times> package_info) list \<Rightarrow> bool \<Rightarrow> (string \<Rightarrow> feed_response) \<Rightarrow> world" where
  "static_world table online feeds =
     \<lparr>fromisoformat = fromisoformat_fixed,
      json_api = (\<lambda>t u. map_of (map (\<lambda>(n, p). (json_url n, p)) table) u),
      artifact = (\<lambda>t u. if online then Some ''bytes'' else None),
      rss = (\<lambda>t u. feeds u),
      writable = (\<lambda>t n. True)\<rparr>"

text \<open>The scenario of the specification: \<^verbatim>\<open>alpha\<close> 2.0, one source distribution of
  500000 bytes uploaded on 2025-07-02.\<close>

definition alpha_sdist :: release_file where
  "alpha_sdist = sdist ''alpha'' ''2.0'' (Some 500000) ''2025-07-02T00:00:00Z''"

definition alpha :: package_info where
  "alpha = package ''2.0'' [alpha_sdist]"

text \<open>Worlds with an empty index and failing feeds, whose artifact downloads all succeed
  (\<open>online\<close>) or all fail (\<open>offline\<close>).\<close>

definition offline :: world where
  "offline = static_world [] False (\<lambda>u. FeedError)"

definition online :: world where
  "online = static_world [] True (\<lambda>u. FeedError)"

text \<open>The state after a fresh crawler (per-file cap 1 MB) has downloaded \<^verbatim>\<open>alpha\<close>.\<close>

definition alpha_downloaded :: crawler where
  "alpha_downloaded =
     \<lparr>max_packages = 50, max_size_mb = 1, max_total_size_mb = 500,
      current_total_size = 500000 / (1024 * 1024),
      files = {''alpha_metadata.json'', ''alpha-2.0.tar.gz''},
      trace = [Get ''https://files.pythonhosted.org/alpha-2.0.tar.gz'',
               Write ''alpha-2.0.tar.gz'', Write ''alpha_metadata.json''],
      written_report = None\<rparr>"

text \<open>A package whose source distribution declares 550 MB, and one whose source
  distribution declares no size.\<close>

definition big :: package_info where
  "big = package ''1.0'' [sdist ''big'' ''1.0'' (Some 576716800) ''2025-07-02T00:00:00Z'']"

definition nosize :: package_info where
  "nosize = package ''1.0'' [sdist ''nosize'' ''1.0'' None ''2025-07-02T00:00:00Z'']"

text \<open>A world whose index holds \<^verbatim>\<open>alpha\<close> only.\<close>

definition alpha_world :: world where
  "alpha_world = static_world [(''alpha'', alpha)] True (\<lambda>u. FeedError)"




text \<open>A package last uploaded in 2024, and a world whose index holds nothing else.\<close>

definition old :: package_info where
  "old = package ''1.0'' [sdist ''old'' ''1.0'' (Some 1000) ''2024-01-01T00:00:00Z'']"

definition stale_world :: world where
  "stale_world = static_world [(''old'', old)] True (\<lambda>u. FeedError)"






text \<open>Feeds of which the first has an item whose title is a single space, after an
  item for \<^verbatim>\<open>foo\<close>, and the second has no item.\<close>

definition leaky_feeds :: "string \<Rightarrow> feed_response" where
  "leaky_feeds u =
     (if u = ''https://pypi.org/rss/updates.xml'' then Feed [Some ''foo 1.0'', Some '' '']
      else Feed [])"

definition leaky_world :: world where
  "leaky_world = static_world [] True leaky_feeds"

lemmas example_defs =
  sdist_def wheel_def package_def static_world_def alpha_sdist_def alpha_def json_url_def
  fromisoformat_fixed_def field_def digit_val_def parse_fraction_def parse_offset_def
  days_in_month_def is_leap_def replace_Z_def offline_def online_def alpha_world_def

lemmas driver_defs =
  crawl_and_download_def get_package_info_def is_updated_since_july_2025_def datetime_ge_def
  calendar_def cutoff_date_def create_summary_report_def git_commit_and_push_def

lemmas run_defs =
  download_package_def latest_release_files_def suitable_file_def endswith_def
  get_file_size_mb_def true_divide_mb_def over_total_def save_package_metadata_def
  write_file_def emit_def now_def init_def

section \<open>The artifact selector\<close>

lemma endswith_iff: "endswith s suf \<longleftrightarrow> (\<exists>p. s = p @ suf)"
  unfolding endswith_def
  by (metis append_eq_conv_conj append_take_drop_id diff_add_inverse2 length_append
      length_drop le_add2)





lemma scan_selected:
  "scan suf cap rel = Inr (Some f) \<Longrightarrow>
     f \<in> set rel \<and> endswith (filename f) suf \<and> (\<exists>mb. get_file_size_mb f = Inr mb \<and> mb \<le> cap)"
  by (induction rel) (auto split: if_splits sum.splits)

lemma suitable_file_selected:
  assumes "suitable_file cap rel = Inr (Some f)"
  shows "f \<in> set rel \<and> (\<exists>mb. get_file_size_mb f = Inr mb \<and> mb \<le> cap)"
proof (cases "scan ''.tar.gz'' cap rel")
  case (Inl e)
  with assms show ?thesis by (simp add: suitable_file_def)
next
  case (Inr r)
  show ?thesis
  proof (cases r)
    case None
    with Inr assms have "scan ''.whl'' cap rel = Inr (Some f)" by (simp add: suitable_file_def)
    from scan_selected[OF this] show ?thesis by blast
  next
    case (Some g)
    with Inr assms have "scan ''.tar.gz'' cap rel = Inr (Some f)" by (simp add: suitable_file_def)
    from scan_selected[OF this] show ?thesis by blast
  qed
qed





section \<open>The download executor\<close>

lemma emit_fields [simp]:
  "max_packages (emit e s) = max_packages s"
  "max_size_mb (emit e s) = max_size_mb s"
  "max_total_size_mb (emit e s) = max_total_size_mb s"
  "current_total_size (emit e s) = current_total_size s"
  "files (emit e s) = files s"
  "trace (emit e s) = trace s @ [e]"
  "written_report (emit e s) = written_report s"
  by (simp_all add: emit_def)

lemma write_file_fields:
  assumes "write_file W n s = Inr s'"
  shows "max_packages s' = max_packages s" "max_size_mb s' = max_size_mb s"
    "max_total_size_mb s' = max_total_size_mb s" "current_total_size s' = current_total_size s"
    "files s' = insert n (files s)" "trace s' = trace s @ [Write n]"
    "written_report s' = written_report s"
  using assms by (auto simp: write_file_def split: if_splits)

lemma save_package_metadata_fields:
  assumes "save_package_metadata W s n p f = Inr s'"
  shows "max_packages s' = max_packages s" "max_size_mb s' = max_size_mb s"
    "max_total_size_mb s' = max_total_size_mb s" "current_total_size s' = current_total_size s"
    "files s' = insert (n @ ''_metadata.json'') (files s)"
    "trace s' = trace s @ [Write (n @ ''_metadata.json'')]"
    "written_report s' = written_report s"
proof -
  from assms have "write_file W (n @ ''_metadata.json'') s = Inr s'"
    by (auto simp: save_package_metadata_def split: entry.splits if_splits)
  from write_file_fields[OF this]
  show "max_packages s' = max_packages s" "max_size_mb s' = max_size_mb s"
    "max_total_size_mb s' = max_total_size_mb s" "current_total_size s' = current_total_size s"
    "files s' = insert (n @ ''_metadata.json'') (files s)"
    "trace s' = trace s @ [Write (n @ ''_metadata.json'')]"
    "written_report s' = written_report s"
    by simp_all
qed

text \<open>The executor, by cases, once a file is selected.\<close>

lemma download_package_selected:
  assumes "latest_release_files p = Inr rel" "suitable_file (max_size_mb s) rel = Inr (Some f)"
    and "get_file_size_mb f = Inr mb"
  shows "download_package W s n p =
    (if over_total s mb then (False, s)
     else if filename f \<in> files s then (True, s)
     else case artifact W (now s) (url f) of
            None \<Rightarrow> (False, emit (Get (url f)) s)
          | Some content \<Rightarrow>
            (case write_file W (filename f) (emit (Get (url f)) s) of
               Inl e \<Rightarrow> (False, emit (Get (url f)) s)
             | Inr s2 \<Rightarrow>
               (case save_package_metadata W
                       (s2\<lparr>current_total_size := current_total_size s + mb\<rparr>) n p (filename f) of
                  Inl e \<Rightarrow> (False, s2\<lparr>current_total_size := current_total_size s + mb\<rparr>)
                | Inr s4 \<Rightarrow> (True, s4))))"
  using assms
  by (auto simp: download_package_def Let_def write_file_fields split: option.splits sum.splits)

lemma download_package_unselected:
  "latest_release_files p = Inl e \<Longrightarrow> download_package W s n p = (False, s)"
  "latest_release_files p = Inr rel \<Longrightarrow> suitable_file (max_size_mb s) rel = Inl e \<Longrightarrow>
     download_package W s n p = (False, s)"
  "latest_release_files p = Inr rel \<Longrightarrow> suitable_file (max_size_mb s) rel = Inr None \<Longrightarrow>
     download_package W s n p = (False, s)"
  by (simp_all add: download_package_def)

text \<open>What an invocation of the executor does, in four cases.\<close>

lemma download_package_cases:
  obtains (unchanged) ok where "download_package W s n p = (ok, s)"
  | (requested) rel f mb where "latest_release_files p = Inr rel"
      "suitable_file (max_size_mb s) rel = Inr (Some f)" "get_file_size_mb f = Inr mb"
      "\<not> over_total s mb" "filename f \<notin> files s"
      "download_package W s n p = (False, emit (Get (url f)) s)"
  | (written) rel f mb s2 where "latest_release_files p = Inr rel"
      "suitable_file (max_size_mb s) rel = Inr (Some f)" "get_file_size_mb f = Inr mb"
      "\<not> over_total s mb" "filename f \<notin> files s"
      "write_file W (filename f) (emit (Get (url f)) s) = Inr s2"
      "download_package W s n p = (False, s2\<lparr>current_total_size := current_total_size s + mb\<rparr>)"
  | (saved) rel f mb s2 s4 where "latest_release_files p = Inr rel"
      "suitable_file (max_size_mb s) rel = Inr (Some f)" "get_file_size_mb f = Inr mb"
      "\<not> over_total s mb" "filename f \<notin> files s"
      "write_file W (filename f) (emit (Get (url f)) s) = Inr s2"
      "save_package_metadata W (s2\<lparr>current_total_size := current_total_size s + mb\<rparr>) n p
         (filename f) = Inr s4"
      "download_package W s n p = (True, s4)"
proof (cases "latest_release_files p")
  case (Inl e)
  then have "download_package W s n p = (False, s)" by (simp add: download_package_unselected)
  then show ?thesis by (rule unchanged)
next
  case (Inr rel)
  show ?thesis
  proof (cases "suitable_file (max_size_mb s) rel")
    case (Inl e)
    with Inr have "download_package W s n p = (False, s)"
      by (simp add: download_package_unselected)
    then show ?thesis by (rule unchanged)
  next
    case r: (Inr r)
    show ?thesis
    proof (cases r)
      case None
      with Inr r have "download_package W s n p = (False, s)"
        by (simp add: download_package_unselected)
      then show ?thesis by (rule unchanged)
    next
      case (Some f)
      with r have sel: "suitable_file (max_size_mb s) rel = Inr (Some f)" by simp
      from suitable_file_selected[OF sel] obtain mb where mb: "get_file_size_mb f = Inr mb"
        by blast
      note d = download_package_selected[OF Inr sel mb, of W n]
      show ?thesis
      proof (cases "over_total s mb \<or> filename f \<in> files s")
        case True
        with d have "download_package W s n p = (False, s) \<or> download_package W s n p = (True, s)"
          by auto
        then show ?thesis using unchanged by blast
      next
        case False
        then have c: "\<not> over_total s mb" "filename f \<notin> files s" by simp_all
        show ?thesis
        proof (cases "artifact W (now s) (url f)")
          case None
          with d c have "download_package W s n p = (False, emit (Get (url f)) s)" by simp
          then show ?thesis by (rule requested[OF Inr sel mb c])
        next
          case (Some content)
          show ?thesis
          proof (cases "write_file W (filename f) (emit (Get (url f)) s)")
            case (Inl e)
            with d c Some have "download_package W s n p = (False, emit (Get (url f)) s)"
              by simp
            then show ?thesis by (rule requested[OF Inr sel mb c])
          next
            case w: (Inr s2)
            show ?thesis
            proof (cases "save_package_metadata W
                (s2\<lparr>current_total_size := current_total_size s + mb\<rparr>) n p (filename f)")
              case (Inl e)
              with d c Some w have "download_package W s n p
                  = (False, s2\<lparr>current_total_size := current_total_size s + mb\<rparr>)"
                by simp
              then show ?thesis by (rule written[OF Inr sel mb c w])
            next
              case m: (Inr s4)
              with d c Some w have "download_package W s n p = (True, s4)" by simp
              then show ?thesis by (rule saved[OF Inr sel mb c w m])
            qed
          qed
        qed
      qed
    qed
  qed
qed




text \<open>
  C3 as the specification states it: a file already in the store gives success whatever
  the budget. It fails: the aggregate check (line 96) comes before the existence check
  (line 105). A crawler with a per-file cap of 600 MB, the file of 550 MB already in the
  store: the executor returns \<open>False\<close>.
\<close>

theorem existing_file_refused_counterexample:
  "latest_release_files big = Inr [sdist ''big'' ''1.0'' (Some 576716800) ''2025-07-02T00:00:00Z'']
   \<and> suitable_file (max_size_mb (init {''big-1.0.tar.gz''} 50 600))
        [sdist ''big'' ''1.0'' (Some 576716800) ''2025-07-02T00:00:00Z'']
       = Inr (Some (sdist ''big'' ''1.0'' (Some 576716800) ''2025-07-02T00:00:00Z''))
   \<and> filename (sdist ''big'' ''1.0'' (Some 576716800) ''2025-07-02T00:00:00Z'')
        \<in> files (init {''big-1.0.tar.gz''} 50 600)
   \<and> download_package online (init {''big-1.0.tar.gz''} 50 600) ''big'' big
       = (False, init {''big-1.0.tar.gz''} 50 600)"
  by (simp add: run_defs example_defs big_def)

text \<open>
  C3, amended. When the selected file is in the store and the aggregate check admits its
  declared size, the executor returns \<open>True\<close> and changes nothing: no budget is
  consumed and no request is made. So after an invocation that returned \<open>True\<close>, a
  second one for the same package returns \<open>True\<close> again and changes nothing, in any
  world, provided the aggregate check still admits the size. When the aggregate check
  refuses the size, the executor returns \<open>False\<close> and changes nothing, whether the
  file is in the store or not.
\<close>

theorem existing_file_short_circuit:
  assumes "latest_release_files p = Inr rel"
    and "suitable_file (max_size_mb s) rel = Inr (Some f)"
    and "get_file_size_mb f = Inr mb"
  shows "(filename f \<in> files s \<and> \<not> over_total s mb \<longrightarrow>
            download_package W s n p = (True, s))
       \<and> (\<forall>s1. download_package W s n p = (True, s1) \<and> \<not> over_total s1 mb \<longrightarrow>
            download_package W' s1 n p = (True, s1))
       \<and> (over_total s mb \<longrightarrow> download_package W s n p = (False, s))"
proof (intro conjI allI impI)
  assume "filename f \<in> files s \<and> \<not> over_total s mb"
  then show "download_package W s n p = (True, s)"
    by (simp add: download_package_selected[OF assms])
next
  fix s1
  assume a: "download_package W s n p = (True, s1) \<and> \<not> over_total s1 mb"
  note d = download_package_selected[OF assms, of W n]
  have "max_size_mb s1 = max_size_mb s \<and> filename f \<in> files s1"
  proof (cases "filename f \<in> files s")
    case True
    with a d have "s1 = s" by (simp split: if_splits)
    with True show ?thesis by simp
  next
    case False
    with a d obtain content s2 where
      w: "write_file W (filename f) (emit (Get (url f)) s) = Inr s2"
      and m: "save_package_metadata W (s2\<lparr>current_total_size := current_total_size s + mb\<rparr>)
                n p (filename f) = Inr s1"
      by (auto split: if_splits option.splits sum.splits)
    from write_file_fields[OF w] save_package_metadata_fields[OF m] show ?thesis by simp
  qed
  with assms a show "download_package W' s1 n p = (True, s1)"
    by (simp add: download_package_selected[of p rel s1 f mb])
next
  assume "over_total s mb"
  then show "download_package W s n p = (False, s)"
    by (simp add: download_package_selected[OF assms])
qed

text \<open>A fresh crawler downloads \<^verbatim>\<open>alpha\<close>; a second invocation, with the network down,
  returns \<open>True\<close> and changes nothing. The file of 550 MB is refused.\<close>

theorem existing_file_short_circuit_witness:
  "latest_release_files alpha = Inr [alpha_sdist]
   \<and> suitable_file (max_size_mb (init {} 50 1)) [alpha_sdist] = Inr (Some alpha_sdist)
   \<and> get_file_size_mb alpha_sdist = Inr (15625 / 32768)
   \<and> download_package online (init {} 50 1) ''alpha'' alpha = (True, alpha_downloaded)
   \<and> \<not> over_total alpha_downloaded (15625 / 32768)
   \<and> suitable_file (max_size_mb alpha_downloaded) [alpha_sdist] = Inr (Some alpha_sdist)
   \<and> filename alpha_sdist \<in> files alpha_downloaded
   \<and> download_package offline alpha_downloaded ''alpha'' alpha = (True, alpha_downloaded)
   \<and> download_package online alpha_downloaded ''alpha'' alpha = (True, alpha_downloaded)
   \<and> latest_release_files big
       = Inr [sdist ''big'' ''1.0'' (Some 576716800) ''2025-07-02T00:00:00Z'']
   \<and> suitable_file (max_size_mb (init {} 50 600))
        [sdist ''big'' ''1.0'' (Some 576716800) ''2025-07-02T00:00:00Z'']
       = Inr (Some (sdist ''big'' ''1.0'' (Some 576716800) ''2025-07-02T00:00:00Z''))
   \<and> get_file_size_mb (sdist ''big'' ''1.0'' (Some 576716800) ''2025-07-02T00:00:00Z'')
       = Inr 550
   \<and> over_total (init {} 50 600) 550
   \<and> download_package online (init {} 50 600) ''big'' big = (False, init {} 50 600)"
proof -
  let ?big = "sdist ''big'' ''1.0'' (Some 576716800) ''2025-07-02T00:00:00Z''"
  have sel: "latest_release_files alpha = Inr [alpha_sdist]"
    "suitable_file (max_size_mb (init {} 50 1)) [alpha_sdist] = Inr (Some alpha_sdist)"
    "get_file_size_mb alpha_sdist = Inr (15625 / 32768)"
    by (simp_all add: run_defs example_defs)
  have first: "download_package online (init {} 50 1) ''alpha'' alpha = (True, alpha_downloaded)"
    by (simp add: run_defs example_defs alpha_downloaded_def)
  have room: "\<not> over_total alpha_downloaded (15625 / 32768)"
    by (simp add: run_defs example_defs alpha_downloaded_def)
  have sel': "suitable_file (max_size_mb alpha_downloaded) [alpha_sdist] = Inr (Some alpha_sdist)"
    by (simp add: run_defs example_defs alpha_downloaded_def)
  have there: "filename alpha_sdist \<in> files alpha_downloaded"
    by (simp add: example_defs alpha_downloaded_def)
  have selb: "latest_release_files big = Inr [?big]"
    "suitable_file (max_size_mb (init {} 50 600)) [?big] = Inr (Some ?big)"
    "get_file_size_mb ?big = Inr 550"
    by (simp_all add: run_defs example_defs big_def)
  have full: "over_total (init {} 50 600) 550"
    by (simp add: run_defs example_defs)
  from existing_file_short_circuit[OF sel, of online "''alpha''" offline] first room
  have again: "download_package offline alpha_downloaded ''alpha'' alpha = (True, alpha_downloaded)"
    by blast
  from existing_file_short_circuit[OF sel(1) sel' sel(3), of online "''alpha''"] there room
  have kept: "download_package online alpha_downloaded ''alpha'' alpha = (True, alpha_downloaded)"
    by blast
  from existing_file_short_circuit[OF selb, of online "''big''"] full
  have refused: "download_package online (init {} 50 600) ''big'' big = (False, init {} 50 600)"
    by blast
  from sel first room sel' there again kept selb full refused show ?thesis by blast
qed

text \<open>
  C10. A release file without a \<^verbatim>\<open>size\<close> key counts as 0 MB: it passes the per-file
  check for every cap that is not negative, the aggregate check refuses it only when the
  consumed total is already above the cap, and downloading it leaves the consumed total
  as it was, whatever bytes the world delivers. When the fetch delivers and the write of
  the file succeeds, the file is in the store.
\<close>

theorem missing_size_counts_as_zero:
  assumes "size_bytes f = None"
  shows "get_file_size_mb f = Inr 0
       \<and> (0 \<le> cap \<longrightarrow>
            scan suf cap (f # rest)
              = (if endswith (filename f) suf then Inr (Some f) else scan suf cap rest))
       \<and> (\<forall>mb. get_file_size_mb f = Inr mb \<longrightarrow>
            (over_total s mb \<longleftrightarrow> max_total_size_mb s < current_total_size s))
       \<and> (latest_release_files p = Inr rel \<and> suitable_file (max_size_mb s) rel = Inr (Some f) \<longrightarrow>
            current_total_size (snd (download_package W s n p)) = current_total_size s)
       \<and> (latest_release_files p = Inr rel \<and> suitable_file (max_size_mb s) rel = Inr (Some f) \<and>
          current_total_size s \<le> max_total_size_mb s \<and> filename f \<notin> files s \<and>
          artifact W (now s) (url f) = Some content \<and>
          writable W (now (emit (Get (url f)) s)) (filename f) \<longrightarrow>
            filename f \<in> files (snd (download_package W s n p)))"
proof -
  from assms have z: "get_file_size_mb f = Inr 0"
    by (simp add: get_file_size_mb_def true_divide_mb_def)
  have a: "0 \<le> cap \<longrightarrow>
            scan suf cap (f # rest)
              = (if endswith (filename f) suf then Inr (Some f) else scan suf cap rest)"
    by (simp add: z)
  have b: "\<forall>mb. get_file_size_mb f = Inr mb \<longrightarrow>
            (over_total s mb \<longleftrightarrow> max_total_size_mb s < current_total_size s)"
    by (simp add: over_total_def z)
  have c: "current_total_size (snd (download_package W s n p)) = current_total_size s"
    if sel: "latest_release_files p = Inr rel" "suitable_file (max_size_mb s) rel = Inr (Some f)"
  proof (cases rule: download_package_cases[of W s n p])
    case (unchanged ok)
    then show ?thesis by simp
  next
    case (requested rel f mb)
    then show ?thesis by simp
  next
    case (written rel' f' mb s2)
    with sel z have "mb = 0" by simp
    with written(7) write_file_fields[OF written(6)] show ?thesis by simp
  next
    case (saved rel' f' mb s2 s4)
    with sel z have "mb = 0" by simp
    with saved(8) write_file_fields[OF saved(6)] save_package_metadata_fields[OF saved(7)]
    show ?thesis by simp
  qed
  have d: "filename f \<in> files (snd (download_package W s n p))"
    if sel: "latest_release_files p = Inr rel" "suitable_file (max_size_mb s) rel = Inr (Some f)"
      and pre: "current_total_size s \<le> max_total_size_mb s" "filename f \<notin> files s"
        "artifact W (now s) (url f) = Some content"
        "writable W (now (emit (Get (url f)) s)) (filename f)"
  proof -
    from pre(4) obtain s2 where w: "write_file W (filename f) (emit (Get (url f)) s) = Inr s2"
      by (simp add: write_file_def)
    from write_file_fields[OF w] have f2: "filename f \<in> files s2" by simp
    show ?thesis
    proof (cases "save_package_metadata W (s2\<lparr>current_total_size := current_total_size s + 0\<rparr>)
        n p (filename f)")
      case (Inl e)
      with pre w f2 show ?thesis
        by (simp add: download_package_selected[OF sel z] over_total_def)
    next
      case (Inr s4)
      with save_package_metadata_fields[OF Inr] pre w f2 show ?thesis
        by (simp add: download_package_selected[OF sel z] over_total_def)
    qed
  qed
  from z a b c d show ?thesis by blast
qed

text \<open>A source distribution without a size, a per-file cap of 0: it is downloaded and
  the consumed total stays 0.\<close>

theorem missing_size_counts_as_zero_witness:
  "size_bytes (sdist ''nosize'' ''1.0'' None ''2025-07-02T00:00:00Z'') = None
   \<and> latest_release_files nosize = Inr [sdist ''nosize'' ''1.0'' None ''2025-07-02T00:00:00Z'']
   \<and> suitable_file (max_size_mb (init {} 50 0))
        [sdist ''nosize'' ''1.0'' None ''2025-07-02T00:00:00Z'']
       = Inr (Some (sdist ''nosize'' ''1.0'' None ''2025-07-02T00:00:00Z''))
   \<and> current_total_size (init {} 50 0) \<le> max_total_size_mb (init {} 50 0)
   \<and> filename (sdist ''nosize'' ''1.0'' None ''2025-07-02T00:00:00Z'') \<notin> files (init {} 50 0)
   \<and> artifact online (now (init {} 50 0))
        (url (sdist ''nosize'' ''1.0'' None ''2025-07-02T00:00:00Z'')) = Some ''bytes''
   \<and> writable online
        (now (emit (Get (url (sdist ''nosize'' ''1.0'' None ''2025-07-02T00:00:00Z'')))
                (init {} 50 0)))
        (filename (sdist ''nosize'' ''1.0'' None ''2025-07-02T00:00:00Z''))
   \<and> fst (download_package online (init {} 50 0) ''nosize'' nosize)
   \<and> filename (sdist ''nosize'' ''1.0'' None ''2025-07-02T00:00:00Z'')
        \<in> files (snd (download_package online (init {} 50 0) ''nosize'' nosize))
   \<and> current_total_size (snd (download_package online (init {} 50 0) ''nosize'' nosize)) = 0"
proof -
  let ?f = "sdist ''nosize'' ''1.0'' None ''2025-07-02T00:00:00Z''"
  let ?s = "init {} 50 0"
  have h: "size_bytes ?f = None" by (simp add: sdist_def)
  have sel: "latest_release_files nosize = Inr [?f]"
    "suitable_file (max_size_mb ?s) [?f] = Inr (Some ?f)"
    by (simp_all add: run_defs example_defs nosize_def)
  have pre: "current_total_size ?s \<le> max_total_size_mb ?s" "filename ?f \<notin> files ?s"
    "artifact online (now ?s) (url ?f) = Some ''bytes''"
    "writable online (now (emit (Get (url ?f)) ?s)) (filename ?f)"
    by (simp_all add: run_defs example_defs)
  have z: "current_total_size ?s = 0" by (simp add: init_def)
  have ok: "fst (download_package online ?s ''nosize'' nosize)"
    by (simp add: run_defs example_defs nosize_def)
  note inst = missing_size_counts_as_zero[OF h, of 0 "''.tar.gz''" "[]" ?s nosize "[?f]" online
      "''nosize''" "''bytes''"]
  from inst sel pre have
    "filename ?f \<in> files (snd (download_package online ?s ''nosize'' nosize))"
    "current_total_size (snd (download_package online ?s ''nosize'' nosize)) = current_total_size ?s"
    by blast+
  with h sel pre z ok show ?thesis by simp
qed

section \<open>The aggregate budget\<close>

lemma py_round2_le:
  assumes "x \<le> 500"
  shows "py_round2 x \<le> 500"
proof -
  define y where "y = x * 100"
  define f where "f = \<lfloor>y\<rfloor>"
  have y: "y \<le> 50000" using assms by (simp add: y_def)
  have f: "of_int f \<le> y" by (simp add: f_def)
  have f1: "f \<le> 50000" using y f by linarith
  have f2: "f + 1 \<le> 50000" if "1 / 2 \<le> y - of_int f"
  proof -
    from that y have "(of_int f :: rat) < 50000" by linarith
    then have "f < 50000" by linarith
    then show ?thesis by simp
  qed
  define k where "k = (if y - of_int f < 1 / 2 then f else if 1 / 2 < y - of_int f then f + 1
         else if even f then f else f + 1)"
  have "k \<le> 50000"
    unfolding k_def using f1 f2 by (simp split: if_splits)
  then have "(of_int k :: rat) \<le> 50000" by linarith
  moreover have "py_round2 x = of_int k / 100"
    unfolding py_round2_def Let_def k_def f_def y_def by (rule refl)
  ultimately show ?thesis by simp
qed

lemma within_budget_emit [simp]: "within_budget (emit e s) = within_budget s"
  by (simp add: within_budget_def)

lemma within_budget_write_file:
  "write_file W n s = Inr s' \<Longrightarrow> within_budget s' = within_budget s"
  by (simp add: within_budget_def write_file_fields)

lemma within_budget_init: "within_budget (init existing mp ms)"
  by (simp add: within_budget_def init_def)

lemma within_budget_get_package_info:
  "within_budget s \<Longrightarrow> within_budget (snd (get_package_info W s n))"
  by (simp add: get_package_info_def Let_def)

lemma within_budget_save:
  "within_budget s \<Longrightarrow> save_package_metadata W s n p f = Inr s' \<Longrightarrow> within_budget s'"
  by (simp add: within_budget_def save_package_metadata_fields)

lemma within_budget_download_package:
  assumes "within_budget s"
  shows "within_budget (snd (download_package W s n p))"
proof (cases rule: download_package_cases[of W s n p])
  case (unchanged ok)
  with assms show ?thesis by simp
next
  case (requested rel f mb)
  with assms show ?thesis by simp
next
  case (written rel f mb s2)
  from written(4) assms write_file_fields[OF written(6)]
  have "within_budget (s2\<lparr>current_total_size := current_total_size s + mb\<rparr>)"
    by (simp add: within_budget_def over_total_def)
  with written(7) show ?thesis by simp
next
  case (saved rel f mb s2 s4)
  from saved(4) assms write_file_fields[OF saved(6)]
  have "within_budget (s2\<lparr>current_total_size := current_total_size s + mb\<rparr>)"
    by (simp add: within_budget_def over_total_def)
  from within_budget_save[OF this saved(7)] saved(8) show ?thesis by simp
qed

lemma within_budget_rss_loop:
  "within_budget s \<Longrightarrow> within_budget (snd (rss_loop W s pkgs urls))"
  by (induction W s pkgs urls rule: rss_loop.induct)
     (auto simp: Let_def split: feed_response.splits prod.splits option.splits)

lemma within_budget_crawl_loop:
  "within_budget s \<Longrightarrow> within_budget (snd (crawl_loop W s dp dc l))"
proof (induction l arbitrary: s dp dc)
  case Nil
  then show ?case by simp
next
  case (Cons x l)
  from Cons.prems have g: "within_budget (snd (get_package_info W s x))"
    by (rule within_budget_get_package_info)
  show ?case
  proof (cases "dc \<ge> max_packages s")
    case True
    with Cons.prems show ?thesis by simp
  next
    case False
    obtain r s1 where gp: "get_package_info W s x = (r, s1)" by (cases "get_package_info W s x")
    with g have s1: "within_budget s1" by simp
    show ?thesis
    proof (cases r)
      case None
      with False gp Cons.IH[OF s1] show ?thesis by simp
    next
      case (Some p)
      show ?thesis
      proof (cases "is_updated_since_july_2025 W p")
        case (Inl e)
        with False gp Some s1 show ?thesis by simp
      next
        case (Inr eligible)
        show ?thesis
        proof (cases eligible)
          case f: False
          with Inr False gp Some Cons.IH[OF s1] show ?thesis by simp
        next
          case t: True
          obtain ok s2 where d: "download_package W s1 x p = (ok, s2)"
            by (cases "download_package W s1 x p")
          with within_budget_download_package[OF s1, of W x p] have "within_budget s2" by simp
          then have "within_budget (emit (Sleep (1 / 2)) s2)" by simp
          from Cons.IH[OF this] Inr False gp Some t d show ?thesis by (cases ok) simp_all
        qed
      qed
    qed
  qed
qed

lemma within_budget_report:
  assumes "within_budget s"
  shows "within_budget (snd (create_summary_report W s dp))"
proof (cases "write_file W ''download_report.json'' s")
  case (Inl e)
  with assms show ?thesis by (simp add: create_summary_report_def)
next
  case (Inr s1)
  let ?rep = "\<lparr>total_packages_downloaded = length dp,
               total_size_mb = py_round2 (current_total_size s), packages = dp\<rparr>"
  from assms write_file_fields[OF Inr]
  have b: "within_budget (s1\<lparr>written_report := Some ?rep\<rparr>)"
    by (simp add: within_budget_def py_round2_le)
  show ?thesis
  proof (cases "write_file W ''README.md'' (s1\<lparr>written_report := Some ?rep\<rparr>)")
    case l: (Inl e)
    with Inr b show ?thesis by (simp add: create_summary_report_def)
  next
    case r: (Inr s3)
    with Inr b within_budget_write_file[OF r] show ?thesis
      by (simp add: create_summary_report_def)
  qed
qed

lemma within_budget_crawl_and_download:
  assumes "within_budget s"
  shows "within_budget (snd (crawl_and_download W s pl))"
proof -
  obtain l s0 where r: "(case pl of None \<Rightarrow> get_recent_packages_from_rss W s | Some l \<Rightarrow> (l, s)) = (l, s0)"
    by (cases "case pl of None \<Rightarrow> get_recent_packages_from_rss W s | Some l \<Rightarrow> (l, s)")
  have s0: "within_budget s0"
    using r assms within_budget_rss_loop[OF assms, of W "[]" rss_urls]
    by (cases pl) (auto simp: get_recent_packages_from_rss_def)
  obtain res s1 where c: "crawl_loop W s0 [] 0 l = (res, s1)"
    by (cases "crawl_loop W s0 [] 0 l")
  with within_budget_crawl_loop[OF s0, of W "[]" 0 l] have s1: "within_budget s1" by simp
  show ?thesis
  proof (cases res)
    case (Inl e)
    with s0 s1 r c show ?thesis by (simp add: crawl_and_download_def)
  next
    case (Inr acc)
    obtain dp dc where acc: "acc = (dp, dc)" by (cases acc)
    obtain err s2 where rep: "create_summary_report W s1 dp = (err, s2)"
      by (cases "create_summary_report W s1 dp")
    with within_budget_report[OF s1, of W dp] have "within_budget s2" by simp
    with s0 r c Inr acc rep show ?thesis
      by (cases err) (simp_all add: crawl_and_download_def git_commit_and_push_def)
  qed
qed

lemma current_total_size_rss_loop:
  "current_total_size (snd (rss_loop W s pkgs urls)) = current_total_size s"
  by (induction W s pkgs urls rule: rss_loop.induct)
     (auto simp: Let_def split: feed_response.splits prod.splits option.splits)

lemma current_total_size_report:
  "current_total_size (snd (create_summary_report W s dp)) = current_total_size s"
  by (auto simp: create_summary_report_def Let_def write_file_fields split: sum.splits)

lemma reachable_within_budget: "reachable W s \<Longrightarrow> within_budget s"
proof (induction rule: reachable.induct)
  case (created existing mp ms)
  show ?case by (rule within_budget_init)
next
  case (after_get_package_info s n)
  then show ?case by (simp add: within_budget_get_package_info)
next
  case (after_download_package s n p)
  then show ?case by (simp add: within_budget_download_package)
next
  case (after_save_package_metadata s n p f s')
  then show ?case by (blast intro: within_budget_save)
next
  case (after_get_recent_packages_from_rss s)
  then show ?case by (simp add: get_recent_packages_from_rss_def within_budget_rss_loop)
next
  case (after_sleep s)
  then show ?case by simp
next
  case (after_create_summary_report s dp)
  then show ?case by (simp add: within_budget_report)
next
  case (after_git_commit_and_push s)
  then show ?case by (simp add: git_commit_and_push_def)
next
  case (after_crawl_and_download s pl)
  then show ?case by (simp add: within_budget_crawl_and_download)
qed

lemma download_package_consumes:
  "current_total_size (snd (download_package W s n p)) = current_total_size s
   \<or> (\<exists>f mb. get_file_size_mb f = Inr mb
          \<and> current_total_size s + mb \<le> max_total_size_mb s
          \<and> current_total_size (snd (download_package W s n p)) = current_total_size s + mb)"
proof (cases rule: download_package_cases[of W s n p])
  case (unchanged ok)
  then show ?thesis by simp
next
  case (requested rel f mb)
  then show ?thesis by simp
next
  case (written rel f mb s2)
  then have "get_file_size_mb f = Inr mb \<and> current_total_size s + mb \<le> max_total_size_mb s
      \<and> current_total_size (snd (download_package W s n p)) = current_total_size s + mb"
    by (simp add: over_total_def)
  then show ?thesis by blast
next
  case (saved rel f mb s2 s4)
  with save_package_metadata_fields[OF saved(7)]
  have "get_file_size_mb f = Inr mb \<and> current_total_size s + mb \<le> max_total_size_mb s
      \<and> current_total_size (snd (download_package W s n p)) = current_total_size s + mb"
    by (simp add: over_total_def)
  then show ?thesis by blast
qed

text \<open>
  C1. In every state of a session the consumed total is within the aggregate cap, and
  so is the total of a written report. The executor changes the consumed total only by
  adding the size of a file that the aggregate check admits (consumed + size \<open>\<le>\<close> cap);
  fetching metadata, resolving candidates and writing the report leave it as it is.
\<close>

theorem consumed_within_cap:
  assumes "reachable W s"
  shows "current_total_size s \<le> max_total_size_mb s
       \<and> (\<forall>rep. written_report s = Some rep \<longrightarrow> total_size_mb rep \<le> max_total_size_mb s)
       \<and> (\<forall>n p. current_total_size (snd (download_package W s n p)) = current_total_size s
              \<or> (\<exists>f mb. get_file_size_mb f = Inr mb
                    \<and> current_total_size s + mb \<le> max_total_size_mb s
                    \<and> current_total_size (snd (download_package W s n p))
                        = current_total_size s + mb))
       \<and> (\<forall>n. current_total_size (snd (get_package_info W s n)) = current_total_size s)
       \<and> current_total_size (snd (get_recent_packages_from_rss W s)) = current_total_size s
       \<and> (\<forall>dp. current_total_size (snd (create_summary_report W s dp)) = current_total_size s)"
proof -
  from assms have b: "within_budget s" by (rule reachable_within_budget)
  then have "current_total_size s \<le> max_total_size_mb s"
    and "\<forall>rep. written_report s = Some rep \<longrightarrow> total_size_mb rep \<le> max_total_size_mb s"
    by (auto simp: within_budget_def)
  moreover have "\<forall>n. current_total_size (snd (get_package_info W s n)) = current_total_size s"
    by (simp add: get_package_info_def Let_def)
  moreover have "current_total_size (snd (get_recent_packages_from_rss W s)) = current_total_size s"
    by (simp add: get_recent_packages_from_rss_def current_total_size_rss_loop)
  moreover have "\<forall>dp. current_total_size (snd (create_summary_report W s dp)) = current_total_size s"
    by (simp add: current_total_size_report)
  ultimately show ?thesis using download_package_consumes by blast
qed

lemma py_round2_alpha: "py_round2 (15625 / 32768) = 12 / 25"
  by code_simp

text \<open>The scenario of the specification: \<^verbatim>\<open>alpha\<close> is downloaded, the consumed total
  is 500000 bytes, the report lists \<^verbatim>\<open>alpha\<close> with a total of 0.48 MB.\<close>

theorem consumed_within_cap_witness:
  "reachable alpha_world (snd (crawl_and_download alpha_world (init {} 2 1) (Some [''alpha''])))
   \<and> fst (crawl_and_download alpha_world (init {} 2 1) (Some [''alpha''])) = Inr (Some [''alpha''])
   \<and> current_total_size (snd (crawl_and_download alpha_world (init {} 2 1) (Some [''alpha''])))
       = 500000 / (1024 * 1024)
   \<and> written_report (snd (crawl_and_download alpha_world (init {} 2 1) (Some [''alpha''])))
       = Some \<lparr>total_packages_downloaded = 1, total_size_mb = 12 / 25, packages = [''alpha'']\<rparr>
   \<and> current_total_size (snd (crawl_and_download alpha_world (init {} 2 1) (Some [''alpha''])))
       \<le> max_total_size_mb (snd (crawl_and_download alpha_world (init {} 2 1) (Some [''alpha''])))
   \<and> 12 / 25
       \<le> max_total_size_mb (snd (crawl_and_download alpha_world (init {} 2 1) (Some [''alpha''])))"
proof -
  let ?r = "crawl_and_download alpha_world (init {} 2 1) (Some [''alpha''])"
  have reach: "reachable alpha_world (snd ?r)"
    by (intro reachable.after_crawl_and_download reachable.created)
  have run: "fst ?r = Inr (Some [''alpha''])" "current_total_size (snd ?r) = 500000 / (1024 * 1024)"
    "written_report (snd ?r)
       = Some \<lparr>total_packages_downloaded = 1, total_size_mb = 12 / 25, packages = [''alpha'']\<rparr>"
    by (simp_all add: driver_defs run_defs example_defs py_round2_alpha Let_def)
  from consumed_within_cap[OF reach]
  have "current_total_size (snd ?r) \<le> max_total_size_mb (snd ?r)"
    and "\<forall>rep. written_report (snd ?r) = Some rep \<longrightarrow> total_size_mb rep \<le> max_total_size_mb (snd ?r)"
    by blast+
  with run(3) have "current_total_size (snd ?r) \<le> max_total_size_mb (snd ?r)"
    and "12 / 25 \<le> max_total_size_mb (snd ?r)"
    by auto
  with reach run show ?thesis by blast
qed

section \<open>The pipeline driver\<close>

lemma evolves_refl [simp]: "evolves s s"
  by (auto simp: evolves_def)

























text \<open>
  C9. The delay of line 305 is at the end of the loop body, and the two \<^verbatim>\<open>continue\<close>
  statements (lines 292 and 297) skip it: after a candidate whose metadata is absent
  and after one that is not eligible, the next request follows without a delay.
\<close>

theorem no_delay_after_skipped_candidates:
  "fst (get_package_info stale_world (init {} 50 1) ''ghost'') = None
   \<and> fst (get_package_info stale_world (emit (Get (json_url ''ghost'')) (init {} 50 1)) ''old'')
       = Some old
   \<and> is_updated_since_july_2025 stale_world old = Inr False
   \<and> crawl_loop stale_world (init {} 50 1) [] 0 [''ghost'', ''old'']
       = (Inr ([], 0),
          emit (Get (json_url ''old'')) (emit (Get (json_url ''ghost'')) (init {} 50 1)))
   \<and> trace (emit (Get (json_url ''old'')) (emit (Get (json_url ''ghost'')) (init {} 50 1)))
       = [Get (json_url ''ghost''), Get (json_url ''old'')]"
  by (simp add: driver_defs run_defs example_defs old_def stale_world_def Let_def)

section \<open>The eligibility filter\<close>


















section \<open>The candidate source resolver\<close>

text \<open>With a maximum that is not negative the resolver never returns more candidates
  than the maximum; and when no feed contributes a name, it returns the fallback list cut
  to the maximum.\<close>

lemma length_slice_to: "0 \<le> n \<Longrightarrow> int (length (slice_to n xs)) \<le> n"
  by (simp add: slice_to_def)

lemma rss_loop_length:
  "0 \<le> max_packages s \<Longrightarrow> int (length (fst (rss_loop W s pkgs urls))) \<le> max_packages s"
proof (induction W s pkgs urls rule: rss_loop.induct)
  case (1 W s pkgs)
  then show ?case by (simp add: length_slice_to)
next
  case (2 W s pkgs rss_url rest)
  have m: "0 \<le> max_packages (emit (Get rss_url) s)" using 2(4) by simp
  show ?case
  proof (cases "rss W (now s) rss_url")
    case FeedError
    with 2(1)[OF refl FeedError m] show ?thesis by simp
  next
    case (Feed items)
    obtain err pkgs' where c: "collect pkgs items = (err, pkgs')" by (cases "collect pkgs items")
    show ?thesis
    proof (cases err)
      case (Some x)
      with 2(3)[OF refl Feed c[symmetric] Some m] Feed c show ?thesis by simp
    next
      case None
      show ?thesis
      proof (cases "pkgs' = []")
        case True
        then have "\<not> pkgs' \<noteq> []" by simp
        from 2(2)[OF refl Feed c[symmetric] None this m] True Feed c None show ?thesis by simp
      next
        case False
        with Feed c None 2(4) show ?thesis by (simp add: length_slice_to)
      qed
    qed
  qed
qed

lemma resolver_length:
  "0 \<le> max_packages s \<Longrightarrow>
     int (length (fst (get_recent_packages_from_rss W s))) \<le> max_packages s"
  by (simp add: get_recent_packages_from_rss_def rss_loop_length)

lemma rss_loop_fallback:
  assumes "\<And>t u. rss W t u = FeedError \<or> (\<exists>items. rss W t u = Feed items \<and> snd (collect [] items) = [])"
  shows "fst (rss_loop W s [] urls) = slice_to (max_packages s) get_popular_packages_fallback"
proof (induction urls arbitrary: s)
  case Nil
  show ?case by simp
next
  case (Cons u urls)
  from assms[of "now s" u] show ?case
  proof
    assume "rss W (now s) u = FeedError"
    then show ?thesis using Cons.IH[of "emit (Get u) s"] by simp
  next
    assume "\<exists>items. rss W (now s) u = Feed items \<and> snd (collect [] items) = []"
    then obtain items where f: "rss W (now s) u = Feed items" and c: "snd (collect [] items) = []"
      by blast
    obtain err where "collect [] items = (err, [])" using c by (cases "collect [] items") simp
    with f show ?thesis using Cons.IH[of "emit (Get u) s"] by (cases err) simp_all
  qed
qed

lemma resolver_fallback:
  assumes "\<And>t u. rss W t u = FeedError \<or> (\<exists>items. rss W t u = Feed items \<and> snd (collect [] items) = [])"
  shows "fst (get_recent_packages_from_rss W s)
       = slice_to (max_packages s) get_popular_packages_fallback"
  unfolding get_recent_packages_from_rss_def by (rule rss_loop_fallback[OF assms])

text \<open>
  C7. When both feeds fail or yield no candidate, the resolver is to return the fallback
  list cut to the maximum. The list \<^verbatim>\<open>packages\<close> is created once, before the loop over
  the feeds (line 169): the names collected from a feed before one of its items raises
  stay in it. Here the first feed fails at its second item (\<^verbatim>\<open>IndexError\<close> at line 191)
  after \<^verbatim>\<open>foo\<close> was collected, the second feed has no item, and the resolver returns
  \<^verbatim>\<open>foo\<close> alone instead of the 36 names of the fallback list.
\<close>

theorem failed_feed_leaks_candidates:
  "rss leaky_world 0 ''https://pypi.org/rss/updates.xml'' = Feed [Some ''foo 1.0'', Some '' '']
   \<and> collect [] [Some ''foo 1.0'', Some '' ''] = (Some IndexError, [''foo''])
   \<and> rss leaky_world 1 ''https://pypi.org/rss/packages.xml'' = Feed []
   \<and> fst (get_recent_packages_from_rss leaky_world (init {} 50 1)) = [''foo'']
   \<and> slice_to (max_packages (init {} 50 1)) get_popular_packages_fallback
       = get_popular_packages_fallback
   \<and> length get_popular_packages_fallback = 36"
  by (simp add: get_recent_packages_from_rss_def rss_urls_def first_token_def is_space_def
      slice_to_def get_popular_packages_fallback_def leaky_world_def leaky_feeds_def
      static_world_def emit_def now_def init_def)

end
